theory Spec2Isabelle
  imports Main "HOL-Library.Word"
begin

section \<open>JavaScript strings\<close>

text \<open>
  A JavaScript string is a sequence of UTF-16 code units. The model uses \<open>string\<close>
  (a \<open>char list\<close>) and reads each \<open>char\<close> as the code unit of the same number,
  U+0000 to U+00FF. The character classes of the source (\<open>\s\<close>, \<open>trim\<close>,
  \<open>[A-Z]\<close>, \<open>toLowerCase\<close>, \<open>toUpperCase\<close>) are written out on that range.
  Calls of \<open>Logger\<close> have no effect on any value and are left out.
\<close>

definition isWhiteSpace :: "char \<Rightarrow> bool" where
  \<comment> \<open>\<open>\s\<close> and the characters \<open>trim\<close> strips: TAB, LF, VT, FF, CR, SPACE, NBSP\<close>
  "isWhiteSpace c = (c \<in> set [CHR 0x09, CHR 0x0A, CHR 0x0B, CHR 0x0C, CHR 0x0D, CHR 0x20, CHR 0xA0])"

definition trim :: "string \<Rightarrow> string" where
  "trim s = rev (dropWhile isWhiteSpace (rev (dropWhile isWhiteSpace s)))"

definition truthy :: "string option \<Rightarrow> bool" where
  \<comment> \<open>\<open>if (x)\<close> on a \<open>string | null | undefined\<close>: null, undefined and \<open>""\<close> are falsy\<close>
  "truthy x = (case x of None \<Rightarrow> False | Some s \<Rightarrow> s \<noteq> [])"

section \<open>Cloud transcription backends and the fallback chain (gpt4o-transcriber.ts)\<close>

datatype field_value = FileStream string | Text string

type_synonym form_data = "(string \<times> field_value) list"

record request =
  url :: string
  authorization :: string
  body :: form_data

text \<open>
  What \<open>await fetch(...)\<close> followed by \<open>await response.text()\<close> can do: reject, or
  give a response with its \<open>ok\<close> flag, status and body text.
\<close>
datatype fetch_outcome = Rejects | Response bool nat string

text \<open>
  The collaborators of the module: \<open>SecureAPIService.getOpenAIKey\<close> (\<open>None\<close> when the
  promise rejects) and \<open>fetch\<close>.
\<close>
record env =
  getOpenAIKey :: "string option"
  fetch :: "request \<Rightarrow> fetch_outcome"

text \<open>
  The observable trace of a run: which backend function was entered, and which request was
  sent.
\<close>
datatype event = Invoked string | Fetched request

definition promptHint :: "string \<Rightarrow> string" where
  "promptHint dictionaryContext = ''This audio may contain these terms: '' @ dictionaryContext"

definition api_url :: string where
  "api_url = ''https://api.openai.com/v1/audio/transcriptions''"

text \<open>The tail shared by the three backends, from the \<open>fetch\<close> call to the \<open>return\<close>.\<close>
definition post_form :: "env \<Rightarrow> string \<Rightarrow> form_data \<Rightarrow> string option \<times> event list" where
  "post_form e openaiKey formData =
     (let req = \<lparr>url = api_url, authorization = ''Bearer '' @ openaiKey, body = formData\<rparr> in
      case fetch e req of
        Rejects \<Rightarrow> (None, [Fetched req])
      | Response ok status text \<Rightarrow>
          if \<not> ok then (None, [Fetched req])
          else (if trim text \<noteq> [] then Some (trim text) else None, [Fetched req]))"

definition form_GPT4oMini :: "string \<Rightarrow> string option \<Rightarrow> form_data" where
  "form_GPT4oMini audioFilePath dictionaryContext =
     [(''file'', FileStream audioFilePath),
      (''model'', Text ''gpt-4o-mini-transcribe''),
      (''response_format'', Text ''text'')]
     @ (if truthy dictionaryContext
        then [(''prompt'', Text (promptHint (the dictionaryContext)))] else [])"

definition form_GPT4oTranscribe :: "string \<Rightarrow> string option \<Rightarrow> form_data" where
  "form_GPT4oTranscribe audioFilePath dictionaryContext =
     [(''file'', FileStream audioFilePath),
      (''model'', Text ''gpt-4o-transcribe''),
      (''response_format'', Text ''text'')]
     @ (if truthy dictionaryContext
        then [(''prompt'', Text (promptHint (the dictionaryContext)))] else [])"

definition form_Whisper1 :: "string \<Rightarrow> string option \<Rightarrow> form_data" where
  "form_Whisper1 audioFilePath dictionaryContext =
     [(''file'', FileStream audioFilePath),
      (''model'', Text ''whisper-1''),
      (''response_format'', Text ''text''),
      (''language'', Text ''en'')]
     @ (if truthy dictionaryContext
        then [(''prompt'', Text (promptHint (the dictionaryContext)))] else [])"

text \<open>
  Each backend catches every error of its body and returns \<open>null\<close> (\<open>None\<close>) for it.
\<close>
definition transcribeWithGPT4oMini :: "env \<Rightarrow> string \<Rightarrow> string option \<Rightarrow> string option \<times> event list" where
  "transcribeWithGPT4oMini e audioFilePath dictionaryContext =
     (case getOpenAIKey e of
        None \<Rightarrow> (None, [Invoked ''gpt-4o-mini-transcribe''])
      | Some openaiKey \<Rightarrow>
          (let (r, tr) = post_form e openaiKey (form_GPT4oMini audioFilePath dictionaryContext)
           in (r, Invoked ''gpt-4o-mini-transcribe'' # tr)))"

definition transcribeWithGPT4oTranscribe :: "env \<Rightarrow> string \<Rightarrow> string option \<Rightarrow> string option \<times> event list" where
  "transcribeWithGPT4oTranscribe e audioFilePath dictionaryContext =
     (case getOpenAIKey e of
        None \<Rightarrow> (None, [Invoked ''gpt-4o-transcribe''])
      | Some openaiKey \<Rightarrow>
          (let (r, tr) = post_form e openaiKey (form_GPT4oTranscribe audioFilePath dictionaryContext)
           in (r, Invoked ''gpt-4o-transcribe'' # tr)))"

definition transcribeWithWhisper1 :: "env \<Rightarrow> string \<Rightarrow> string option \<Rightarrow> string option \<times> event list" where
  "transcribeWithWhisper1 e audioFilePath dictionaryContext =
     (case getOpenAIKey e of
        None \<Rightarrow> (None, [Invoked ''whisper-1''])
      | Some openaiKey \<Rightarrow>
          (let (r, tr) = post_form e openaiKey (form_Whisper1 audioFilePath dictionaryContext)
           in (r, Invoked ''whisper-1'' # tr)))"

text \<open>The interface \<open>GPT4oTranscribeResult\<close>; its field \<open>text\<close> is \<open>result_text\<close> here.\<close>
record GPT4oTranscribeResult =
  result_text :: "string option"

text \<open>
  \<open>transcribeWithBestModel\<close>. The collaborators may answer differently from one step to
  the next, so the function takes them per step: \<open>w Step1\<close> is the environment during
  step 1, and so on. The dictionary service is a collaborator: \<open>dictionary\<close> is
  what importing it and calling \<open>getWordsForTranscription\<close> gives: \<open>Inl\<close> an error
  message when that throws (it is outside every \<open>try\<close>, so the error leaves the
  function), \<open>Inr\<close> the words otherwise. The result is \<open>Inl\<close> for a thrown error and
  \<open>Inr\<close> for a returned value.
\<close>
datatype step = Step1 | Step2 | Step3

definition transcribeWithBestModel ::
  "(step \<Rightarrow> env) \<Rightarrow> string + string option \<Rightarrow> string \<Rightarrow> (string + GPT4oTranscribeResult) \<times> event list" where
  "transcribeWithBestModel w dictionary audioFilePath =
     (case dictionary of
        Inl err \<Rightarrow> (Inl err, [])
      | Inr dictionaryContext \<Rightarrow>
          (let (result1, tr1) = transcribeWithGPT4oMini (w Step1) audioFilePath dictionaryContext in
           if truthy result1 then (Inr \<lparr>result_text = result1\<rparr>, tr1)
           else
             (let (result2, tr2) = transcribeWithGPT4oTranscribe (w Step2) audioFilePath dictionaryContext in
              if truthy result2 then (Inr \<lparr>result_text = result2\<rparr>, tr1 @ tr2)
              else
                (let (result3, tr3) = transcribeWithWhisper1 (w Step3) audioFilePath dictionaryContext in
                 if truthy result3 then (Inr \<lparr>result_text = result3\<rparr>, tr1 @ tr2 @ tr3)
                 else (Inr \<lparr>result_text = None\<rparr>, tr1 @ tr2 @ tr3)))))"

definition invoked :: "event list \<Rightarrow> string list" where
  "invoked tr = concat (map (\<lambda>ev. case ev of Invoked b \<Rightarrow> [b] | Fetched _ \<Rightarrow> []) tr)"

definition fetched :: "event list \<Rightarrow> request list" where
  "fetched tr = concat (map (\<lambda>ev. case ev of Invoked _ \<Rightarrow> [] | Fetched r \<Rightarrow> [r]) tr)"

section \<open>Smart spacing and fast paste (fast-streaming-paster.ts)\<close>

text \<open>
  The static fields of \<open>FastStreamingPaster\<close> that a paste reads and writes;
  \<open>lastPasteTime\<close> is 0 and \<open>lastPastedText\<close> is empty until the first paste.
\<close>
record PasteSession =
  lastPasteTime :: int
  lastPastedText :: string

definition SPACE_TIMEOUT :: int where
  "SPACE_TIMEOUT = 10000"

definition isUpperAZ :: "char \<Rightarrow> bool" where
  \<comment> \<open>\<open>/[A-Z]/.test(c)\<close>\<close>
  "isUpperAZ c = (65 \<le> (of_char c :: nat) \<and> (of_char c :: nat) \<le> 90)"

definition toLowerCase :: "char \<Rightarrow> char" where
  \<comment> \<open>\<open>toLowerCase\<close> of one code unit below U+0100: A-Z and the capitals U+00C0-U+00DE but U+00D7\<close>
  "toLowerCase c =
     (let n = (of_char c :: nat) in
      if (65 \<le> n \<and> n \<le> 90) \<or> (192 \<le> n \<and> n \<le> 214) \<or> (216 \<le> n \<and> n \<le> 222)
      then char_of (n + 32) else c)"

definition upperCaseChanges :: "char \<Rightarrow> bool" where
  \<comment> \<open>the code units below U+0100 that \<open>toUpperCase\<close> replaces: a-z, U+00B5, U+00DF-U+00FF but U+00F7\<close>
  "upperCaseChanges c =
     (let n = (of_char c :: nat) in
      (97 \<le> n \<and> n \<le> 122) \<or> n = 181 \<or> (223 \<le> n \<and> n \<le> 246) \<or> (248 \<le> n \<and> n \<le> 255))"

definition equalsOwnUpperCase :: "string \<Rightarrow> bool" where
  \<comment> \<open>\<open>w === w.toUpperCase()\<close>\<close>
  "equalsOwnUpperCase w = list_all (\<lambda>c. \<not> upperCaseChanges c) w"

definition sentenceEndTest :: "string \<Rightarrow> bool" where
  \<comment> \<open>\<open>/[.!?]"?\s*$/.test(s)\<close>, read from the end of \<open>s\<close>\<close>
  "sentenceEndTest s =
     (case dropWhile isWhiteSpace (rev s) of
        [] \<Rightarrow> False
      | c # cs \<Rightarrow>
          c \<in> set ''.!?'' \<or>
          (c = CHR 0x22 \<and> (case cs of [] \<Rightarrow> False | c' # _ \<Rightarrow> c' \<in> set ''.!?'')))"

definition lastTextEndsWithSentence :: "string \<Rightarrow> bool" where
  "lastTextEndsWithSentence lastText = (lastText \<noteq> [] \<and> sentenceEndTest (trim lastText))"

definition isSeparator :: "char \<Rightarrow> bool" where
  \<comment> \<open>the class \<open>[\s,.!?;:]\<close>\<close>
  "isSeparator c = (isWhiteSpace c \<or> c \<in> set '',.!?;:'')"

definition firstWordOf :: "string \<Rightarrow> string" where
  \<comment> \<open>\<open>text.substring(1).split(/[\s,.!?;:]+/)[0]\<close>: what stands before the first separator\<close>
  "firstWordOf t = takeWhile (\<lambda>c. \<not> isSeparator c) (drop 1 t)"

definition properNouns :: "string list" where
  "properNouns =
     [''I'', ''Monday'', ''Tuesday'', ''Wednesday'', ''Thursday'', ''Friday'', ''Saturday'', ''Sunday'',
      ''January'', ''February'', ''March'', ''April'', ''May'', ''June'', ''July'', ''August'',
      ''September'', ''October'', ''November'', ''December'', ''Google'', ''Apple'', ''Microsoft'',
      ''Amazon'', ''Facebook'', ''Twitter'', ''LinkedIn'', ''GitHub'', ''OpenAI'', ''ChatGPT'',
      ''Jarvis'', ''CEO'', ''API'', ''AI'', ''ML'', ''USA'', ''UK'', ''EU'']"

definition startsWithQuote :: "string \<Rightarrow> bool" where
  \<comment> \<open>\<open>s.startsWith('"') || s.startsWith("'")\<close>\<close>
  "startsWithQuote s = (case s of [] \<Rightarrow> False | c # _ \<Rightarrow> c = CHR 0x22 \<or> c = CHR 0x27)"

definition adjustContinuationCapitalization :: "string \<Rightarrow> string" where
  "adjustContinuationCapitalization t =
     (if t = [] \<or> length t < 2 then t
      else if t ! 0 \<noteq> CHR '' '' \<or> \<not> isUpperAZ (t ! 1) then t
      else
        (let firstWord = firstWordOf t in
         if firstWord \<in> set properNouns then t
         else if startsWithQuote (trim t) then t
         else if equalsOwnUpperCase firstWord \<and> length firstWord > 1 then t
         else CHR '' '' # toLowerCase (t ! 1) # drop 2 t))"

text \<open>\<open>now\<close> is what \<open>Date.now()\<close> gives in \<open>addSimpleSmartSpacing\<close>.\<close>
definition addSimpleSmartSpacing :: "PasteSession \<Rightarrow> int \<Rightarrow> string \<Rightarrow> string" where
  "addSimpleSmartSpacing s now t =
     (let timeSinceLastPaste = now - lastPasteTime s in
      if lastPasteTime s > 0 \<and> timeSinceLastPaste < SPACE_TIMEOUT then
        (let spacedText = CHR '' '' # t in
         if lastTextEndsWithSentence (lastPastedText s) then spacedText
         else adjustContinuationCapitalization spacedText)
      else t)"

text \<open>
  The native module \<open>typing_monitor\<close>: \<open>require\<close> fails, or the module has no function
  \<open>fastPasteText\<close>, or it has one, which returns a boolean or throws an error with a
  message.
\<close>
datatype native_call = Returns bool | Throws string

datatype typing_monitor = RequireFails | NoFastPasteText | FastPasteText "string \<Rightarrow> native_call"

text \<open>
  What a helper process does: it closes so many milliseconds after it was started, with
  an exit code (\<open>None\<close> for \<open>null\<close>, when a signal ended it), or it does not close by
  itself.
\<close>
datatype process_run = Closes nat "nat option" | Hangs

text \<open>A number as the template literal \<open>${code}\<close> prints it, and \<open>null\<close>.\<close>
function decimal :: "nat \<Rightarrow> string" where
  "decimal n =
     (if n < 10 then [char_of (48 + n)]
      else decimal (n div 10) @ [char_of (48 + n mod 10)])"
  by pat_completeness auto
termination
  by (relation "measure id") auto

declare decimal.simps [simp del]

definition showCode :: "nat option \<Rightarrow> string" where
  "showCode code = (case code of None \<Rightarrow> ''null'' | Some n \<Rightarrow> decimal n)"

text \<open>
  What a paste does to the world, in order: a call of the native \<open>fastPasteText\<close>, a
  start of \<open>pbcopy\<close> with the text on its input, a start of \<open>osascript\<close> with the paste
  keystroke, a write of the Electron clipboard that returned, and a clipboard write
  scheduled after a delay in milliseconds.
\<close>
datatype effect =
    NativePaste string
  | Pbcopy string
  | Keystroke
  | ClipboardWriteText string
  | ScheduleClipboardWrite string nat

text \<open>
  The collaborators of a paste: the native module, the run of \<open>pbcopy\<close> on a text and
  the run of \<open>osascript\<close>, both taken to start. \<open>clipboardWrites\<close> tells whether
  \<open>require('electron')\<close> and \<open>clipboard.writeText\<close> return (\<open>True\<close>) or throw.
  \<open>nowSpacing\<close> and \<open>nowDone\<close> are the readings of \<open>Date.now()\<close> in
  \<open>addSimpleSmartSpacing\<close> and at the assignment to \<open>lastPasteTime\<close>.
\<close>
record paste_env =
  typingMonitor :: typing_monitor
  pbcopy :: "string \<Rightarrow> process_run"
  osascript :: process_run
  clipboardWrites :: "string \<Rightarrow> bool"
  nowSpacing :: int
  nowDone :: int

text \<open>\<open>Inr True\<close>: pasted; \<open>Inr False\<close>: fall back; \<open>Inl\<close>: the error thrown.\<close>
definition tryNativePaste :: "paste_env \<Rightarrow> string \<Rightarrow> (string + bool) \<times> effect list" where
  "tryNativePaste e t =
     (case typingMonitor e of
        RequireFails \<Rightarrow> (Inr False, [])
      | NoFastPasteText \<Rightarrow> (Inr False, [])
      | FastPasteText fastPasteText \<Rightarrow>
          (case fastPasteText t of
             Returns success \<Rightarrow>
               if success then (Inr True, [NativePaste t])
               else (Inl ''NO_TEXT_INPUT'', [NativePaste t])
           | Throws message \<Rightarrow>
               if message = ''NO_TEXT_INPUT'' then (Inl message, [NativePaste t])
               else (Inr False, [NativePaste t])))"

text \<open>
  \<open>tryAppleScriptPaste\<close>. The promise settles at the first call of \<open>resolve\<close> or
  \<open>reject\<close>; later calls do nothing. The copy timer rejects 200 ms after the start and
  is never cleared. When \<open>pbcopy\<close> has closed with code 0 before that, \<open>osascript\<close> is
  started and the paste timer rejects 500 ms later. A process that closes in the same
  millisecond as a timer fires is taken to come after the timer.
\<close>
definition tryAppleScriptPaste :: "paste_env \<Rightarrow> string \<Rightarrow> (string + unit) \<times> effect list" where
  "tryAppleScriptPaste e t =
     (case pbcopy e t of
        Hangs \<Rightarrow> (Inl ''Copy timeout'', [Pbcopy t])
      | Closes copyTime code \<Rightarrow>
          if 200 \<le> copyTime then (Inl ''Copy timeout'', [Pbcopy t])
          else if code \<noteq> Some 0 then (Inl (''Copy failed: '' @ showCode code), [Pbcopy t])
          else
            (let firstTimer = (if copyTime + 500 < 200 then ''Paste timeout'' else ''Copy timeout'') in
             case osascript e of
               Hangs \<Rightarrow> (Inl firstTimer, [Pbcopy t, Keystroke])
             | Closes pasteTime pasteCode \<Rightarrow>
                 if pasteTime < 500 \<and> copyTime + pasteTime < 200 then
                   (if pasteCode = Some 0 then (Inr (), [Pbcopy t, Keystroke])
                    else (Inl (''Paste failed: '' @ showCode pasteCode), [Pbcopy t, Keystroke]))
                 else (Inl firstTimer, [Pbcopy t, Keystroke])))"

definition scheduleClipboardWrite :: "string \<Rightarrow> effect list" where
  "scheduleClipboardWrite t = [ScheduleClipboardWrite t 2000]"

text \<open>The \<open>catch\<close> block of \<open>pasteFast\<close>: the clipboard backup, then the error again.\<close>
definition pasteFailed ::
  "paste_env \<Rightarrow> PasteSession \<Rightarrow> string \<Rightarrow> string \<Rightarrow> effect list
     \<Rightarrow> (string + unit) \<times> PasteSession \<times> effect list" where
  "pasteFailed e s smartText error fx =
     (Inl error, s, fx @ (if clipboardWrites e smartText then [ClipboardWriteText smartText] else []))"

definition pasteFast ::
  "paste_env \<Rightarrow> PasteSession \<Rightarrow> string \<Rightarrow> (string + unit) \<times> PasteSession \<times> effect list" where
  "pasteFast e s t =
     (if trim t = [] then (Inr (), s, [])
      else
        (let smartText = addSimpleSmartSpacing s (nowSpacing e) t in
         case tryNativePaste e smartText of
           (Inl error, fx) \<Rightarrow> pasteFailed e s smartText error fx
         | (Inr nativeSuccess, fx) \<Rightarrow>
             if nativeSuccess then
               (Inr (), s\<lparr>lastPasteTime := nowDone e, lastPastedText := smartText\<rparr>,
                fx @ scheduleClipboardWrite smartText)
             else
               (case tryAppleScriptPaste e smartText of
                  (Inl error, fx2) \<Rightarrow> pasteFailed e s smartText error (fx @ fx2)
                | (Inr u, fx2) \<Rightarrow>
                    (Inr (), s\<lparr>lastPasteTime := nowDone e, lastPastedText := smartText\<rparr>,
                     fx @ fx2 @ scheduleClipboardWrite smartText))))"

section \<open>The native whisper addon: handles and their contexts\<close>

text \<open>
  \<open>struct WhisperHandle\<close>: the context pointer (\<open>None\<close> for \<open>nullptr\<close>), the \<open>freed\<close>
  flag and the model path. The mutex is held for the whole of each call modelled here and
  the calls are run one at a time, so it is not part of the state.
\<close>
record WhisperHandle =
  ctx :: "nat option"
  freed :: bool
  model_path :: string

text \<open>The calls into the inference engine, in the order they are made.\<close>
datatype engine_call = WhisperInit nat | WhisperFree nat

text \<open>
  The state of the addon: the \<open>WhisperHandle\<close> objects it has allocated, each at the
  address that is its index (\<open>None\<close> once deleted), and the calls made to the engine so
  far. A new handle gets the next address, and its context the same number.
\<close>
record native =
  handles :: "WhisperHandle option list"
  calls :: "engine_call list"

definition emptyNative :: native where
  "emptyNative = \<lparr>handles = [], calls = []\<rparr>"

definition handleAt :: "native \<Rightarrow> nat \<Rightarrow> WhisperHandle option" where
  "handleAt n a = (if a < length (handles n) then handles n ! a else None)"

text \<open>An argument of an addon function: an \<open>External\<close> wrapping a handle, or anything else.\<close>
datatype napi_value = External nat | NotExternal

definition unwrap_handle :: "napi_value list \<Rightarrow> nat \<Rightarrow> string + nat" where
  "unwrap_handle info index =
     (if length info \<le> index then Inl ''Invalid context handle''
      else case info ! index of
             External a \<Rightarrow> Inr a
           | NotExternal \<Rightarrow> Inl ''Invalid context handle'')"

text \<open>
  \<open>free_model\<close>. An \<open>External\<close> keeps its \<open>WhisperHandle\<close> alive, so its address is
  always that of a handle; the model answers an address that is not with an error of its
  own.
\<close>
definition free_model :: "native \<Rightarrow> napi_value list \<Rightarrow> (string + unit) \<times> native" where
  "free_model n info =
     (case unwrap_handle info 0 of
        Inl err \<Rightarrow> (Inl err, n)
      | Inr a \<Rightarrow>
          (case handleAt n a of
             None \<Rightarrow> (Inl ''no such handle'', n)
           | Some h \<Rightarrow>
               (case ctx h of
                  Some c \<Rightarrow>
                    if \<not> freed h
                    then (Inr (), n\<lparr>handles := (handles n)[a := Some (h\<lparr>ctx := None, freed := True\<rparr>)],
                                    calls := calls n @ [WhisperFree c]\<rparr>)
                    else (Inr (), n)
                | None \<Rightarrow> (Inr (), n))))"

text \<open>
  The destructor given to the \<open>External\<close> in \<open>wrap_handle\<close>, run when the value is
  collected: it releases a context that is still there and deletes the handle.
\<close>
definition finalize :: "native \<Rightarrow> nat \<Rightarrow> native" where
  "finalize n a =
     (case handleAt n a of
        None \<Rightarrow> n
      | Some h \<Rightarrow>
          (case ctx h of
             Some c \<Rightarrow>
               if \<not> freed h
               then n\<lparr>handles := (handles n)[a := None], calls := calls n @ [WhisperFree c]\<rparr>
               else n\<lparr>handles := (handles n)[a := None]\<rparr>
           | None \<Rightarrow> n\<lparr>handles := (handles n)[a := None]\<rparr>))"

text \<open>
  \<open>init_model\<close> on an options object with a \<open>model\<close> path. \<open>loads\<close> tells whether
  \<open>whisper_init_from_file_with_params\<close> gives a context for the path or \<open>nullptr\<close>.
\<close>
definition init_model :: "(string \<Rightarrow> bool) \<Rightarrow> native \<Rightarrow> string \<Rightarrow> (string + napi_value) \<times> native" where
  "init_model loads n path =
     (if \<not> loads path then (Inl (''Failed to load whisper model: '' @ path), n)
      else
        (let a = length (handles n) in
         (Inr (External a),
          n\<lparr>handles := handles n @ [Some \<lparr>ctx = Some a, freed = False, model_path = path\<rparr>],
            calls := calls n @ [WhisperInit a]\<rparr>)))"

text \<open>\<open>get_info\<close> reports a handle as loaded when it is not freed and has a context.\<close>
definition isLoaded :: "WhisperHandle option \<Rightarrow> bool" where
  "isLoaded x = (case x of None \<Rightarrow> False | Some h \<Rightarrow> \<not> freed h \<and> ctx h \<noteq> None)"

text \<open>How many handles are loaded.\<close>
definition loadedCount :: "native \<Rightarrow> nat" where
  "loadedCount n = length (filter isLoaded (handles n))"

text \<open>The contexts resident in memory after a sequence of engine calls.\<close>
fun resident :: "nat list \<Rightarrow> engine_call list \<Rightarrow> nat list" where
  "resident live [] = live"
| "resident live (WhisperInit c # cs) = resident (live @ [c]) cs"
| "resident live (WhisperFree c # cs) = resident (removeAll c live) cs"

text \<open>At no point of the sequence is more than one context resident.\<close>
fun single_resident :: "nat list \<Rightarrow> engine_call list \<Rightarrow> bool" where
  "single_resident live [] = (length live \<le> 1)"
| "single_resident live (WhisperInit c # cs) = (length live \<le> 1 \<and> single_resident (live @ [c]) cs)"
| "single_resident live (WhisperFree c # cs) = (length live \<le> 1 \<and> single_resident (removeAll c live) cs)"

subsection \<open>The TypeScript wrapper class\<close>

record WhisperCpp =
  handle :: "napi_value option"
  modelPath :: string

definition WhisperCpp_free :: "WhisperCpp \<times> native \<Rightarrow> (string + unit) \<times> WhisperCpp \<times> native" where
  "WhisperCpp_free wn =
     (case wn of (w, n) \<Rightarrow>
        (case handle w of
           None \<Rightarrow> (Inr (), w, n)
         | Some h \<Rightarrow>
             (case free_model n [h] of
                (Inl err, n') \<Rightarrow> (Inl err, w, n')
              | (Inr u, n') \<Rightarrow> (Inr (), w\<lparr>handle := None\<rparr>, n'))))"

section \<open>The local transcriber and its resident model\<close>

text \<open>The module-level variables, with the state of the addon they hold a handle of.\<close>
record whisper_module =
  whisperAddon :: bool
  whisperHandle :: "napi_value option"
  loadedModelId :: "string option"
  currentModelId :: "string option"
  addon :: native

text \<open>
  The file system and the engine as the transcriber sees them: the directory of the
  models, which model files exist, and which paths the engine loads.
\<close>
record local_env =
  modelsDir :: string
  fileExists :: "string \<Rightarrow> bool"
  engineLoads :: "string \<Rightarrow> bool"

definition getModelPath :: "local_env \<Rightarrow> string \<Rightarrow> string" where
  "getModelPath e modelId = modelsDir e @ ''/ggml-'' @ modelId @ ''.bin''"

definition isModelDownloaded :: "local_env \<Rightarrow> string \<Rightarrow> bool" where
  "isModelDownloaded e modelId = fileExists e (getModelPath e modelId)"

text \<open>The block "Free previous model if loaded": an error of \<open>free\<close> is ignored.\<close>
definition freePrevious :: "whisper_module \<Rightarrow> whisper_module" where
  "freePrevious m =
     (case whisperHandle m of
        None \<Rightarrow> m
      | Some h \<Rightarrow>
          m\<lparr>whisperHandle := None, loadedModelId := None,
            addon := snd (free_model (addon m) [h])\<rparr>)"

definition preloadModel :: "local_env \<Rightarrow> whisper_module \<Rightarrow> string \<Rightarrow> bool \<times> whisper_module" where
  "preloadModel e m modelId =
     (if \<not> whisperAddon m then (False, m)
      else if \<not> isModelDownloaded e modelId then (False, m)
      else if whisperHandle m \<noteq> None \<and> loadedModelId m = Some modelId then (True, m)
      else
        (let m1 = freePrevious m in
         case init_model (engineLoads e) (addon m1) (getModelPath e modelId) of
           (Inl err, n) \<Rightarrow> (False, m1\<lparr>whisperHandle := None, loadedModelId := None, addon := n\<rparr>)
         | (Inr h, n) \<Rightarrow>
             (True, m1\<lparr>whisperHandle := Some h, loadedModelId := Some modelId,
                       currentModelId := Some modelId, addon := n\<rparr>)))"

text \<open>\<open>loadModel\<close> only tells whether the model file is there.\<close>
definition loadModel :: "local_env \<Rightarrow> whisper_module \<Rightarrow> string \<Rightarrow> bool \<times> whisper_module" where
  "loadModel e m modelId = (isModelDownloaded e modelId, m)"

definition freeModel :: "whisper_module \<Rightarrow> whisper_module" where
  "freeModel m =
     (case whisperHandle m of
        None \<Rightarrow> m
      | Some h \<Rightarrow>
          if whisperAddon m
          then m\<lparr>whisperHandle := None, loadedModelId := None,
                 addon := snd (free_model (addon m) [h])\<rparr>
          else m)"

text \<open>The block "AUTO-PRELOAD" of \<open>transcribeFromBuffer\<close>.\<close>
definition autoPreload :: "local_env \<Rightarrow> whisper_module \<Rightarrow> string \<Rightarrow> whisper_module" where
  "autoPreload e m modelId =
     (if whisperAddon m \<and> whisperHandle m = None then
        (case init_model (engineLoads e) (addon m) (getModelPath e modelId) of
           (Inl err, n) \<Rightarrow> m\<lparr>whisperHandle := None, addon := n\<rparr>
         | (Inr h, n) \<Rightarrow> m\<lparr>whisperHandle := Some h, loadedModelId := Some modelId, addon := n\<rparr>)
      else m)"

text \<open>The operations that touch the resident model, and a run of them from a state.\<close>
datatype operation = Preload string | Load string | Free | AutoPreload string

fun perform :: "local_env \<Rightarrow> whisper_module \<Rightarrow> operation \<Rightarrow> whisper_module" where
  "perform e m (Preload modelId) = snd (preloadModel e m modelId)"
| "perform e m (Load modelId) = snd (loadModel e m modelId)"
| "perform e m Free = freeModel m"
| "perform e m (AutoPreload modelId) = autoPreload e m modelId"

definition run :: "local_env \<Rightarrow> whisper_module \<Rightarrow> operation list \<Rightarrow> whisper_module" where
  "run e m ops = foldl (perform e) m ops"

definition startModule :: "bool \<Rightarrow> whisper_module" where
  "startModule available =
     \<lparr>whisperAddon = available, whisperHandle = None, loadedModelId = None,
      currentModelId = None, addon = emptyNative\<rparr>"

text \<open>The context a value stands for, when it wraps a handle that is loaded.\<close>
definition loadedHandle :: "native \<Rightarrow> napi_value \<Rightarrow> nat option" where
  "loadedHandle n v =
     (case v of
        NotExternal \<Rightarrow> None
      | External a \<Rightarrow>
          (case handleAt n a of
             None \<Rightarrow> None
           | Some h \<Rightarrow> if freed h then None else ctx h))"

text \<open>
  The invariant of the module state: the engine never held two contexts at once; when
  \<open>whisperHandle\<close> is \<open>null\<close> no handle is loaded and no context is resident;
  otherwise it is the one loaded handle, and its context the one resident.
\<close>
definition consistent :: "whisper_module \<Rightarrow> bool" where
  "consistent m =
     (single_resident [] (calls (addon m)) \<and>
      (case whisperHandle m of
         None \<Rightarrow> resident [] (calls (addon m)) = [] \<and> loadedCount (addon m) = 0
       | Some v \<Rightarrow>
           whisperAddon m \<and> loadedCount (addon m) = 1 \<and>
           (case loadedHandle (addon m) v of
              None \<Rightarrow> False
            | Some c \<Rightarrow> resident [] (calls (addon m)) = [c])))"

section \<open>Minimum duration of the audio buffer\<close>

type_synonym byte = "8 word"

definition sampleRate :: nat where "sampleRate = 16000"
definition bytesPerSample :: nat where "bytesPerSample = 2"
definition minDurationMs :: nat where "minDurationMs = 1100"

definition minSamples :: nat where
  \<comment> \<open>\<open>Math.ceil(minDurationMs * sampleRate / 1000)\<close>\<close>
  "minSamples = (minDurationMs * sampleRate + 999) div 1000"

definition minBytes :: nat where
  "minBytes = minSamples * bytesPerSample"

definition buffer_alloc :: "nat \<Rightarrow> byte \<Rightarrow> byte list" where
  "buffer_alloc n fill = replicate n fill"

definition buffer_copy :: "byte list \<Rightarrow> byte list \<Rightarrow> byte list" where
  \<comment> \<open>\<open>source.copy(target, 0)\<close>: as many bytes as fit, written at the start of the target\<close>
  "buffer_copy source target =
     take (length target) source @ drop (length source) target"

text \<open>The value of \<open>processedBuffer\<close> in \<open>transcribeFromBuffer\<close>.\<close>
definition processedBuffer :: "byte list \<Rightarrow> byte list" where
  "processedBuffer audioBuffer =
     (if length audioBuffer < minBytes
      then buffer_copy audioBuffer (buffer_alloc minBytes 0)
      else audioBuffer)"

text \<open>
  The 16-bit samples of a buffer, low byte first, as \<open>Int16Array\<close> reads them; a last
  odd byte is no sample.
\<close>
fun samples :: "byte list \<Rightarrow> 16 word list" where
  "samples (lo # hi # bs) = word_cat hi lo # samples bs"
| "samples bs = []"

section \<open>The fallback chain: results\<close>

lemmas chain_eval = transcribeWithBestModel_def transcribeWithGPT4oMini_def
  transcribeWithGPT4oTranscribe_def transcribeWithWhisper1_def post_form_def truthy_def
  trim_def isWhiteSpace_def invoked_def fetched_def Let_def

lemmas form_defs = form_GPT4oMini_def form_GPT4oTranscribe_def form_Whisper1_def

lemma post_form_cases:
  "post_form e k f = (r, tr) \<Longrightarrow>
     tr = [Fetched \<lparr>url = api_url, authorization = ''Bearer '' @ k, body = f\<rparr>] \<and> r \<noteq> Some []"
  by (auto simp: post_form_def Let_def split: fetch_outcome.splits if_splits)

lemma mini_result:
  "transcribeWithGPT4oMini e p d = (r, tr) \<Longrightarrow>
     truthy r = (r \<noteq> None) \<and> invoked tr = [''gpt-4o-mini-transcribe''] \<and>
     (\<forall>q \<in> set (fetched tr). body q = form_GPT4oMini p d \<and> url q = api_url
        \<and> Some (authorization q) = map_option ((@) ''Bearer '') (getOpenAIKey e))"
  by (auto simp: transcribeWithGPT4oMini_def truthy_def invoked_def fetched_def
      dest!: post_form_cases split: option.splits prod.splits)

lemma transcribe_result:
  "transcribeWithGPT4oTranscribe e p d = (r, tr) \<Longrightarrow>
     truthy r = (r \<noteq> None) \<and> invoked tr = [''gpt-4o-transcribe''] \<and>
     (\<forall>q \<in> set (fetched tr). body q = form_GPT4oTranscribe p d \<and> url q = api_url
        \<and> Some (authorization q) = map_option ((@) ''Bearer '') (getOpenAIKey e))"
  by (auto simp: transcribeWithGPT4oTranscribe_def truthy_def invoked_def fetched_def
      dest!: post_form_cases split: option.splits prod.splits)

lemma whisper1_result:
  "transcribeWithWhisper1 e p d = (r, tr) \<Longrightarrow>
     truthy r = (r \<noteq> None) \<and> invoked tr = [''whisper-1''] \<and>
     (\<forall>q \<in> set (fetched tr). body q = form_Whisper1 p d \<and> url q = api_url
        \<and> Some (authorization q) = map_option ((@) ''Bearer '') (getOpenAIKey e))"
  by (auto simp: transcribeWithWhisper1_def truthy_def invoked_def fetched_def
      dest!: post_form_cases split: option.splits prod.splits)

lemma invoked_append: "invoked (a @ b) = invoked a @ invoked b"
  by (simp add: invoked_def)

lemma fetched_append: "fetched (a @ b) = fetched a @ fetched b"
  by (simp add: fetched_def)

text \<open>The chain in terms of what its three backends give.\<close>
lemma chain_unfold:
  assumes "transcribeWithGPT4oMini (w Step1) p d = (r1, t1)"
      and "transcribeWithGPT4oTranscribe (w Step2) p d = (r2, t2)"
      and "transcribeWithWhisper1 (w Step3) p d = (r3, t3)"
  shows "transcribeWithBestModel w (Inr d) p =
     (if r1 \<noteq> None then (Inr \<lparr>result_text = r1\<rparr>, t1)
      else if r2 \<noteq> None then (Inr \<lparr>result_text = r2\<rparr>, t1 @ t2)
      else (Inr \<lparr>result_text = r3\<rparr>, t1 @ t2 @ t3))"
  using mini_result [OF assms(1)] transcribe_result [OF assms(2)] whisper1_result [OF assms(3)] assms
  by (simp add: transcribeWithBestModel_def)

text \<open>
  Claim C1, as amended. When the dictionary is read without an error,
  \<open>transcribeWithBestModel\<close> always returns a value and never throws. If each of the
  three backends fails, the value returned has the text \<open>null\<close>; it carries no error
  and no list of failures. The text is \<open>null\<close> only then: in every other case it is the
  non-empty text of one of the backends.
\<close>
theorem chain_exhaustion_returns_null:
  "let r1 = fst (transcribeWithGPT4oMini (w Step1) p d);
       r2 = fst (transcribeWithGPT4oTranscribe (w Step2) p d);
       r3 = fst (transcribeWithWhisper1 (w Step3) p d);
       res = fst (transcribeWithBestModel w (Inr d) p)
   in \<not> isl res
    \<and> (r1 = None \<and> r2 = None \<and> r3 = None \<longrightarrow> res = Inr \<lparr>result_text = None\<rparr>)
    \<and> (res = Inr \<lparr>result_text = None\<rparr> \<longrightarrow> r1 = None \<and> r2 = None \<and> r3 = None)
    \<and> (\<forall>t. res = Inr \<lparr>result_text = Some t\<rparr> \<longrightarrow> t \<noteq> [] \<and> Some t \<in> {r1, r2, r3})"
proof -
  obtain r1 t1 where a: "transcribeWithGPT4oMini (w Step1) p d = (r1, t1)"
    by (cases "transcribeWithGPT4oMini (w Step1) p d")
  obtain r2 t2 where b: "transcribeWithGPT4oTranscribe (w Step2) p d = (r2, t2)"
    by (cases "transcribeWithGPT4oTranscribe (w Step2) p d")
  obtain r3 t3 where c: "transcribeWithWhisper1 (w Step3) p d = (r3, t3)"
    by (cases "transcribeWithWhisper1 (w Step3) p d")
  show ?thesis
    using mini_result [OF a] transcribe_result [OF b] whisper1_result [OF c]
    by (auto simp: chain_unfold [OF a b c] a b c truthy_def)
qed

theorem chain_exhaustion_returns_null_witness:
  "let w = (\<lambda>s. \<lparr>getOpenAIKey = None, fetch = (\<lambda>r. Rejects)\<rparr>);
       res = fst (transcribeWithBestModel w (Inr (Some ''Jarvis'')) ''b.wav'')
   in fst (transcribeWithGPT4oMini (w Step1) ''b.wav'' (Some ''Jarvis'')) = None
    \<and> fst (transcribeWithGPT4oTranscribe (w Step2) ''b.wav'' (Some ''Jarvis'')) = None
    \<and> fst (transcribeWithWhisper1 (w Step3) ''b.wav'' (Some ''Jarvis'')) = None
    \<and> res = Inr \<lparr>result_text = None\<rparr>"
  using chain_exhaustion_returns_null
    [of "\<lambda>s. \<lparr>getOpenAIKey = None, fetch = (\<lambda>r. Rejects)\<rparr>" "''b.wav''" "Some ''Jarvis''"]
  by (simp add: chain_eval)

text \<open>
  Claim C1 as it is written fails: with every backend answering HTTP 503, each of the
  three backends fails, and the chain returns the value \<open>{ text: null }\<close> where the claim
  has it raise an error.
\<close>
theorem chain_exhaustion_counterexample:
  "let w = (\<lambda>s. \<lparr>getOpenAIKey = Some ''sk'', fetch = (\<lambda>r. Response False 503 ''unavailable'')\<rparr>);
       res = fst (transcribeWithBestModel w (Inr None) ''a.wav'')
   in fst (transcribeWithGPT4oMini (w Step1) ''a.wav'' None) = None
    \<and> fst (transcribeWithGPT4oTranscribe (w Step2) ''a.wav'' None) = None
    \<and> fst (transcribeWithWhisper1 (w Step3) ''a.wav'' None) = None
    \<and> res = Inr \<lparr>result_text = None\<rparr> \<and> \<not> isl res"
  by (simp add: chain_eval)

text \<open>
  Claim C2. The chain enters its backends in the fixed order gpt-4o-mini-transcribe,
  gpt-4o-transcribe, whisper-1, and returns at the first one that gives a text, which is
  not empty; the backends after it are not entered. A backend is entered only when every
  one before it has failed.
\<close>
theorem chain_priority_order_short_circuit:
  "let r1 = fst (transcribeWithGPT4oMini (w Step1) p d);
       r2 = fst (transcribeWithGPT4oTranscribe (w Step2) p d);
       r3 = fst (transcribeWithWhisper1 (w Step3) p d);
       (res, tr) = transcribeWithBestModel w (Inr d) p
   in (r1 = Some t \<longrightarrow>
         t \<noteq> [] \<and> res = Inr \<lparr>result_text = Some t\<rparr> \<and> invoked tr = [''gpt-4o-mini-transcribe''])
    \<and> (r1 = None \<and> r2 = Some t \<longrightarrow>
         t \<noteq> [] \<and> res = Inr \<lparr>result_text = Some t\<rparr> \<and>
         invoked tr = [''gpt-4o-mini-transcribe'', ''gpt-4o-transcribe''])
    \<and> (r1 = None \<and> r2 = None \<longrightarrow>
         res = Inr \<lparr>result_text = r3\<rparr> \<and> r3 \<noteq> Some [] \<and>
         invoked tr = [''gpt-4o-mini-transcribe'', ''gpt-4o-transcribe'', ''whisper-1''])"
proof -
  obtain r1 t1 where a: "transcribeWithGPT4oMini (w Step1) p d = (r1, t1)"
    by (cases "transcribeWithGPT4oMini (w Step1) p d")
  obtain r2 t2 where b: "transcribeWithGPT4oTranscribe (w Step2) p d = (r2, t2)"
    by (cases "transcribeWithGPT4oTranscribe (w Step2) p d")
  obtain r3 t3 where c: "transcribeWithWhisper1 (w Step3) p d = (r3, t3)"
    by (cases "transcribeWithWhisper1 (w Step3) p d")
  show ?thesis
    using mini_result [OF a] transcribe_result [OF b] whisper1_result [OF c]
    by (auto simp: chain_unfold [OF a b c] a b c invoked_append truthy_def)
qed

text \<open>The example of the specification: the first backend fails, the second gives "hello".\<close>
theorem chain_priority_order_short_circuit_witness:
  "let w = (\<lambda>s. \<lparr>getOpenAIKey = Some ''sk'',
                   fetch = (\<lambda>r. case s of Step1 \<Rightarrow> Response False 500 ''''
                                 | Step2 \<Rightarrow> Response True 200 ''hello''
                                 | Step3 \<Rightarrow> Response True 200 ''unused'')\<rparr>);
       (res, tr) = transcribeWithBestModel w (Inr None) ''a.wav''
   in fst (transcribeWithGPT4oMini (w Step1) ''a.wav'' None) = None
    \<and> fst (transcribeWithGPT4oTranscribe (w Step2) ''a.wav'' None) = Some ''hello''
    \<and> res = Inr \<lparr>result_text = Some ''hello''\<rparr>
    \<and> invoked tr = [''gpt-4o-mini-transcribe'', ''gpt-4o-transcribe'']
    \<and> ''whisper-1'' \<notin> set (invoked tr)"
  using chain_priority_order_short_circuit
    [of "\<lambda>s. \<lparr>getOpenAIKey = Some ''sk'',
                   fetch = (\<lambda>r. case s of Step1 \<Rightarrow> Response False 500 ''''
                                 | Step2 \<Rightarrow> Response True 200 ''hello''
                                 | Step3 \<Rightarrow> Response True 200 ''unused'')\<rparr>"
        "''a.wav''" None "''hello''"]
  by (simp add: chain_eval)

section \<open>Recognition hints\<close>

lemma form_hint:
  "d \<noteq> [] \<Longrightarrow> form_GPT4oMini p (Some d) = form_GPT4oMini p None @ [(''prompt'', Text (promptHint d))]"
  "d \<noteq> [] \<Longrightarrow> form_GPT4oTranscribe p (Some d) = form_GPT4oTranscribe p None @ [(''prompt'', Text (promptHint d))]"
  "d \<noteq> [] \<Longrightarrow> form_Whisper1 p (Some d) = form_Whisper1 p None @ [(''prompt'', Text (promptHint d))]"
  by (simp_all add: form_defs truthy_def)

lemma chain_fetched:
  assumes "q \<in> set (fetched (snd (transcribeWithBestModel w (Inr d) p)))"
  shows "url q = api_url"
    and "body q \<in> {form_GPT4oMini p d, form_GPT4oTranscribe p d, form_Whisper1 p d}"
    and "\<exists>s. Some (authorization q) = map_option ((@) ''Bearer '') (getOpenAIKey (w s))"
proof -
  obtain r1 t1 where a: "transcribeWithGPT4oMini (w Step1) p d = (r1, t1)"
    by (cases "transcribeWithGPT4oMini (w Step1) p d")
  obtain r2 t2 where b: "transcribeWithGPT4oTranscribe (w Step2) p d = (r2, t2)"
    by (cases "transcribeWithGPT4oTranscribe (w Step2) p d")
  obtain r3 t3 where c: "transcribeWithWhisper1 (w Step3) p d = (r3, t3)"
    by (cases "transcribeWithWhisper1 (w Step3) p d")
  from assms have m: "q \<in> set (fetched t1) \<or> q \<in> set (fetched t2) \<or> q \<in> set (fetched t3)"
    by (auto simp: chain_unfold [OF a b c] fetched_append split: if_splits)
  show "url q = api_url"
    using m mini_result [OF a] transcribe_result [OF b] whisper1_result [OF c] by auto
  show "body q \<in> {form_GPT4oMini p d, form_GPT4oTranscribe p d, form_Whisper1 p d}"
    using m mini_result [OF a] transcribe_result [OF b] whisper1_result [OF c] by auto
  show "\<exists>s. Some (authorization q) = map_option ((@) ''Bearer '') (getOpenAIKey (w s))"
    using m mini_result [OF a] transcribe_result [OF b] whisper1_result [OF c] by blast
qed

text \<open>
  Claim C9. With a non-empty term list, each of the three backends builds the form of a
  request without hints and adds to it one field \<open>prompt\<close>, whose value is the label
  "This audio may contain these terms: " followed by the term list. Every request the
  chain sends carries that same \<open>prompt\<close>; its address and its authorization header do
  not depend on the terms, and its other fields are those of a request without hints. So
  the terms reach a backend in this one labeled field and nowhere else.
\<close>
theorem hints_labelled_prompt_only:
  "d \<noteq> [] \<Longrightarrow>
     form_GPT4oMini p (Some d) =
       form_GPT4oMini p None @ [(''prompt'', Text (''This audio may contain these terms: '' @ d))]
   \<and> form_GPT4oTranscribe p (Some d) =
       form_GPT4oTranscribe p None @ [(''prompt'', Text (''This audio may contain these terms: '' @ d))]
   \<and> form_Whisper1 p (Some d) =
       form_Whisper1 p None @ [(''prompt'', Text (''This audio may contain these terms: '' @ d))]
   \<and> (\<forall>q \<in> set (fetched (snd (transcribeWithBestModel w (Inr (Some d)) p))).
         url q = api_url
       \<and> (\<exists>s. Some (authorization q) = map_option ((@) ''Bearer '') (getOpenAIKey (w s)))
       \<and> map_of (body q) ''prompt'' = Some (Text (''This audio may contain these terms: '' @ d))
       \<and> filter (\<lambda>(k, v). k \<noteq> ''prompt'') (body q)
            \<in> {form_GPT4oMini p None, form_GPT4oTranscribe p None, form_Whisper1 p None})"
proof (intro conjI ballI)
  fix q
  assume nz: "d \<noteq> []"
     and q: "q \<in> set (fetched (snd (transcribeWithBestModel w (Inr (Some d)) p)))"
  note b = chain_fetched(2) [OF q]
  show "url q = api_url"
    by (rule chain_fetched(1) [OF q])
  show "\<exists>s. Some (authorization q) = map_option ((@) ''Bearer '') (getOpenAIKey (w s))"
    by (rule chain_fetched(3) [OF q])
  show "map_of (body q) ''prompt'' = Some (Text (''This audio may contain these terms: '' @ d))"
    using b nz by (auto simp: form_defs truthy_def promptHint_def)
  show "filter (\<lambda>(k, v). k \<noteq> ''prompt'') (body q)
            \<in> {form_GPT4oMini p None, form_GPT4oTranscribe p None, form_Whisper1 p None}"
    using b nz by (auto simp: form_defs truthy_def promptHint_def)
qed (simp_all add: form_hint promptHint_def)

theorem hints_labelled_prompt_only_witness:
  "''Jarvis, Kubernetes'' \<noteq> []
   \<and> map (\<lambda>q. map_of (body q) ''prompt'')
        (fetched (snd (transcribeWithBestModel
           (\<lambda>s. \<lparr>getOpenAIKey = Some ''sk'', fetch = (\<lambda>r. Response False 500 '''')\<rparr>)
           (Inr (Some ''Jarvis, Kubernetes'')) ''a.wav'')))
     = [Some (Text ''This audio may contain these terms: Jarvis, Kubernetes''),
        Some (Text ''This audio may contain these terms: Jarvis, Kubernetes''),
        Some (Text ''This audio may contain these terms: Jarvis, Kubernetes'')]"
  using hints_labelled_prompt_only
    [of "''Jarvis, Kubernetes''" "''a.wav''"
        "\<lambda>s. \<lparr>getOpenAIKey = Some ''sk'', fetch = (\<lambda>r. Response False 500 '''')\<rparr>"]
  by (simp add: chain_eval form_defs promptHint_def)

section \<open>Smart spacing and fast paste: results\<close>

lemmas paste_eval = pasteFast_def pasteFailed_def tryNativePaste_def tryAppleScriptPaste_def
  showCode_def
  scheduleClipboardWrite_def addSimpleSmartSpacing_def adjustContinuationCapitalization_def
  lastTextEndsWithSentence_def sentenceEndTest_def firstWordOf_def isSeparator_def
  startsWithQuote_def equalsOwnUpperCase_def upperCaseChanges_def toLowerCase_def isUpperAZ_def
  properNouns_def SPACE_TIMEOUT_def trim_def isWhiteSpace_def Let_def char_of_eq_iff

lemma trim_blank: "list_all isWhiteSpace t \<Longrightarrow> trim t = []"
  by (induction t) (simp_all add: trim_def)

lemma dropWhile_snoc_keep: "\<not> P c \<Longrightarrow> \<exists>xs. dropWhile P (ys @ [c]) = xs @ [c]"
  by (induction ys) auto

lemma trim_keeps_head: "\<not> isWhiteSpace c \<Longrightarrow> \<exists>u. trim (c # r) = c # u"
proof -
  assume nw: "\<not> isWhiteSpace c"
  obtain xs where "dropWhile isWhiteSpace (rev r @ [c]) = xs @ [c]"
    using dropWhile_snoc_keep [of isWhiteSpace c "rev r"] nw by blast
  then show ?thesis
    using nw by (simp add: trim_def)
qed

lemma trim_leading_space: "trim (CHR '' '' # t) = trim t"
  by (simp add: trim_def isWhiteSpace_def)

text \<open>
  \<open>adjustContinuationCapitalization\<close> on a text that begins with the added space. The
  test for a quotation mark never decides: it is reached only when the character after
  the space is a capital letter.
\<close>
lemma adjust_spaced:
  "adjustContinuationCapitalization (CHR '' '' # c # r) =
     (if \<not> isUpperAZ c then CHR '' '' # c # r
      else if takeWhile (\<lambda>x. \<not> isSeparator x) (c # r) \<in> set properNouns then CHR '' '' # c # r
      else if equalsOwnUpperCase (takeWhile (\<lambda>x. \<not> isSeparator x) (c # r))
              \<and> 1 < length (takeWhile (\<lambda>x. \<not> isSeparator x) (c # r)) then CHR '' '' # c # r
      else CHR '' '' # toLowerCase c # r)"
proof (cases "isUpperAZ c")
  case False
  then show ?thesis by (simp add: adjustContinuationCapitalization_def)
next
  case True
  then have nw: "\<not> isWhiteSpace c" and nq: "c \<noteq> CHR 0x22" "c \<noteq> CHR 0x27"
    by (auto simp: isUpperAZ_def isWhiteSpace_def)
  obtain u where "trim (c # r) = c # u"
    using trim_keeps_head [OF nw] by blast
  then have q: "\<not> startsWithQuote (trim (CHR '' '' # c # r))"
    using nq by (simp add: trim_leading_space startsWithQuote_def)
  show ?thesis
    using True q
    by (simp add: adjustContinuationCapitalization_def firstWordOf_def Let_def)
qed

text \<open>
  \<open>lastPasteTime\<close> is 0 before the first paste and a reading of the clock after it. With
  a clock that reads 10000 or more, the test of \<open>addSimpleSmartSpacing\<close> is the test on
  the time passed alone.
\<close>
lemma live_test_on_clock:
  "0 \<le> lastPasteTime s \<Longrightarrow> 10000 \<le> now \<Longrightarrow>
     (0 < lastPasteTime s \<and> now - lastPasteTime s < 10000) = (now - lastPasteTime s < 10000)"
  by auto

text \<open>
  Claim C6. A session is live when there was a successful paste (\<open>lastPasteTime\<close> is 0
  until the first one) and less than 10000 ms have passed since. In a live session the
  result is one space followed by the new text, of the same length and the same but
  possibly for its first character, a capital letter made lower-case. When the session is
  not live the text is returned as it is.
\<close>
theorem live_session_prepends_one_space:
  "(0 < lastPasteTime s \<and> now - lastPasteTime s < 10000 \<longrightarrow>
      (\<exists>t'. addSimpleSmartSpacing s now t = CHR '' '' # t'
          \<and> length t' = length t \<and> drop 1 t' = drop 1 t
          \<and> (t' = t \<or> (\<exists>c r. t = c # r \<and> isUpperAZ c \<and> t' = toLowerCase c # r))))
   \<and> (\<not> (0 < lastPasteTime s \<and> now - lastPasteTime s < 10000) \<longrightarrow>
      addSimpleSmartSpacing s now t = t)"
proof (cases t)
  case Nil
  then show ?thesis
    by (simp add: addSimpleSmartSpacing_def SPACE_TIMEOUT_def
                  adjustContinuationCapitalization_def Let_def)
next
  case (Cons c r)
  then show ?thesis
    by (auto simp: addSimpleSmartSpacing_def SPACE_TIMEOUT_def adjust_spaced Let_def)
qed

text \<open>The example of the specification: "World", then "there" 5000 ms later; and 10000 ms later.\<close>
theorem live_session_prepends_one_space_witness:
  "(0::int) < lastPasteTime \<lparr>lastPasteTime = 1700000000000, lastPastedText = ''World''\<rparr>
   \<and> 1700000005000 - lastPasteTime \<lparr>lastPasteTime = 1700000000000, lastPastedText = ''World''\<rparr> < 10000
   \<and> addSimpleSmartSpacing \<lparr>lastPasteTime = 1700000000000, lastPastedText = ''World''\<rparr>
         1700000005000 ''there'' = '' there''
   \<and> \<not> (1700000010000 - lastPasteTime \<lparr>lastPasteTime = 1700000000000, lastPastedText = ''World''\<rparr> < 10000)
   \<and> addSimpleSmartSpacing \<lparr>lastPasteTime = 1700000000000, lastPastedText = ''World''\<rparr>
         1700000010000 ''there'' = ''there''"
  using live_session_prepends_one_space
          [of "\<lparr>lastPasteTime = 1700000000000, lastPastedText = ''World''\<rparr>" 1700000005000 "''there''"]
        live_session_prepends_one_space
          [of "\<lparr>lastPasteTime = 1700000000000, lastPastedText = ''World''\<rparr>" 1700000010000 "''there''"]
  by (auto simp: isUpperAZ_def)

text \<open>
  Claim C7, as amended. In a live session whose previous text does not end a sentence, let the first
  word of the new text be what stands before its first separator. If the first word is in
  the list of proper nouns, or the text begins with a quotation mark, or the first word is
  its own upper-case form and longer than one character, the text is kept as it is after
  the space. Otherwise a first character that is a capital letter A-Z is made lower-case
  and the rest is kept. A text whose first character is anything else, a capital letter
  outside A-Z among them, is kept as it is.
\<close>
theorem continuation_capitalization:
  assumes "0 < lastPasteTime s" and "now - lastPasteTime s < 10000"
      and "\<not> lastTextEndsWithSentence (lastPastedText s)"
  shows "let firstWord = takeWhile (\<lambda>x. \<not> isSeparator x) (c # r);
             kept = (firstWord \<in> set properNouns \<or> c = CHR 0x22 \<or> c = CHR 0x27
                      \<or> (equalsOwnUpperCase firstWord \<and> 1 < length firstWord))
         in (kept \<longrightarrow> addSimpleSmartSpacing s now (c # r) = CHR '' '' # c # r)
          \<and> (\<not> kept \<and> isUpperAZ c \<longrightarrow>
                addSimpleSmartSpacing s now (c # r) = CHR '' '' # toLowerCase c # r)
          \<and> (\<not> isUpperAZ c \<longrightarrow> addSimpleSmartSpacing s now (c # r) = CHR '' '' # c # r)"
proof -
  have "c = CHR 0x22 \<or> c = CHR 0x27 \<Longrightarrow> \<not> isUpperAZ c"
    by (auto simp: isUpperAZ_def)
  then show ?thesis
    using assms
    by (auto simp: addSimpleSmartSpacing_def SPACE_TIMEOUT_def adjust_spaced Let_def)
qed

text \<open>
  After "World": "Monday is" keeps its capital, "There is" loses it, "NASA is" keeps its
  capitals, and a text in quotation marks is kept.
\<close>
theorem continuation_capitalization_witness:
  "(0::int) < lastPasteTime \<lparr>lastPasteTime = 1700000000000, lastPastedText = ''World''\<rparr>
   \<and> 1700000005000 - lastPasteTime \<lparr>lastPasteTime = 1700000000000, lastPastedText = ''World''\<rparr> < 10000
   \<and> \<not> lastTextEndsWithSentence (lastPastedText \<lparr>lastPasteTime = 1700000000000, lastPastedText = ''World''\<rparr>)
   \<and> addSimpleSmartSpacing \<lparr>lastPasteTime = 1700000000000, lastPastedText = ''World''\<rparr>
         1700000005000 ''Monday is'' = '' Monday is''
   \<and> addSimpleSmartSpacing \<lparr>lastPasteTime = 1700000000000, lastPastedText = ''World''\<rparr>
         1700000005000 ''There is'' = '' there is''
   \<and> addSimpleSmartSpacing \<lparr>lastPasteTime = 1700000000000, lastPastedText = ''World''\<rparr>
         1700000005000 ''NASA is'' = '' NASA is''
   \<and> addSimpleSmartSpacing \<lparr>lastPasteTime = 1700000000000, lastPastedText = ''World''\<rparr>
         1700000005000 (CHR 0x22 # ''Yes'') = CHR '' '' # CHR 0x22 # ''Yes''"
  using continuation_capitalization
          [of "\<lparr>lastPasteTime = 1700000000000, lastPastedText = ''World''\<rparr>" 1700000005000
              "CHR ''M''" "''onday is''"]
        continuation_capitalization
          [of "\<lparr>lastPasteTime = 1700000000000, lastPastedText = ''World''\<rparr>" 1700000005000
              "CHR ''T''" "''here is''"]
        continuation_capitalization
          [of "\<lparr>lastPasteTime = 1700000000000, lastPastedText = ''World''\<rparr>" 1700000005000
              "CHR ''N''" "''ASA is''"]
        continuation_capitalization
          [of "\<lparr>lastPasteTime = 1700000000000, lastPastedText = ''World''\<rparr>" 1700000005000
              "CHR 0x22" "''Yes''"]
  by (simp add: lastTextEndsWithSentence_def sentenceEndTest_def isSeparator_def
                equalsOwnUpperCase_def upperCaseChanges_def toLowerCase_def isUpperAZ_def
                properNouns_def trim_def isWhiteSpace_def Let_def char_of_eq_iff)

text \<open>
  Claim C7 as it is written fails for a first letter that is a capital outside A-Z. After
  "World", in a live session, the new text is U+00C9 (a capital E with an acute accent)
  followed by "cole is". Its first word is not a proper noun of the list, the text begins
  with no quotation mark, and the first word is not its own upper-case form; the
  lower-case form of the first letter is U+00E9. The text is kept with its capital.
\<close>
theorem continuation_capitalization_counterexample:
  "(0::int) < lastPasteTime \<lparr>lastPasteTime = 1700000000000, lastPastedText = ''World''\<rparr>
   \<and> 1700000005000 - lastPasteTime \<lparr>lastPasteTime = 1700000000000, lastPastedText = ''World''\<rparr> < 10000
   \<and> \<not> lastTextEndsWithSentence (lastPastedText \<lparr>lastPasteTime = 1700000000000, lastPastedText = ''World''\<rparr>)
   \<and> firstWordOf (CHR '' '' # CHR 0xC9 # ''cole is'') = CHR 0xC9 # ''cole''
   \<and> CHR 0xC9 # ''cole'' \<notin> set properNouns
   \<and> \<not> startsWithQuote (CHR 0xC9 # ''cole is'')
   \<and> \<not> equalsOwnUpperCase (CHR 0xC9 # ''cole'')
   \<and> toLowerCase (CHR 0xC9) = CHR 0xE9
   \<and> addSimpleSmartSpacing \<lparr>lastPasteTime = 1700000000000, lastPastedText = ''World''\<rparr>
         1700000005000 (CHR 0xC9 # ''cole is'') = CHR '' '' # CHR 0xC9 # ''cole is''
   \<and> addSimpleSmartSpacing \<lparr>lastPasteTime = 1700000000000, lastPastedText = ''World''\<rparr>
         1700000005000 (CHR 0xC9 # ''cole is'') \<noteq> CHR '' '' # CHR 0xE9 # ''cole is''"
  by (simp add: paste_eval)

lemma tryNativePaste_effects:
  "tryNativePaste e t = (r, fx) \<Longrightarrow> set fx \<subseteq> {NativePaste t}"
  by (auto simp: tryNativePaste_def split: typing_monitor.splits native_call.splits if_splits)

lemma tryAppleScriptPaste_effects:
  "tryAppleScriptPaste e t = (r, fx) \<Longrightarrow> set fx \<subseteq> {Pbcopy t, Keystroke}"
  by (auto simp: tryAppleScriptPaste_def Let_def split: process_run.splits if_splits)

text \<open>
  The paste timer never decides: it fires 500 ms after \<open>pbcopy\<close> closed, and the copy
  timer, which is not cleared, has fired by then.
\<close>
lemma tryAppleScriptPaste_no_paste_timeout:
  "fst (tryAppleScriptPaste e t) \<noteq> Inl ''Paste timeout''"
  by (simp add: tryAppleScriptPaste_def Let_def split: process_run.splits)

lemma trim_nonblank: "\<not> list_all isWhiteSpace t \<Longrightarrow> trim t \<noteq> []"
proof
  assume nb: "\<not> list_all isWhiteSpace t" and e: "trim t = []"
  from e have "dropWhile isWhiteSpace (rev (dropWhile isWhiteSpace t)) = []"
    by (simp add: trim_def)
  then have a: "\<forall>x \<in> set (dropWhile isWhiteSpace t). isWhiteSpace x"
    by simp
  have "dropWhile isWhiteSpace t = []"
  proof (rule ccontr)
    assume n: "dropWhile isWhiteSpace t \<noteq> []"
    then have "\<not> isWhiteSpace (hd (dropWhile isWhiteSpace t))"
      by (rule hd_dropWhile)
    moreover have "hd (dropWhile isWhiteSpace t) \<in> set (dropWhile isWhiteSpace t)"
      using n by (rule hd_in_set)
    ultimately show False using a by blast
  qed
  then have "\<forall>x \<in> set t. isWhiteSpace x"
    by simp
  with nb show False
    by (simp add: list_all_iff)
qed

text \<open>
  Claim C8. Take a text that is not blank. The paste paths fail with an error when the
  native paste throws it, or when the native module is unavailable and the AppleScript
  paste rejects with it. Whenever they do, \<open>pasteFast\<close> throws that same error, the
  session is as it was before the call, and after the paste attempts the last thing done
  is the write of the formatted text to the clipboard (left out only where the clipboard
  itself throws, which the code logs); nothing is scheduled. And \<open>pasteFast\<close> throws
  an error in no other case.
\<close>
theorem pasteFast_failure_backup_rethrow:
  assumes "\<not> list_all isWhiteSpace t"
  shows "let smartText = addSimpleSmartSpacing s (nowSpacing e) t;
             pathsFail = (fst (tryNativePaste e smartText) = Inl err
                          \<or> (fst (tryNativePaste e smartText) = Inr False
                              \<and> fst (tryAppleScriptPaste e smartText) = Inl err));
             (res, s', fx) = pasteFast e s t
         in (pathsFail \<longrightarrow>
               res = Inl err \<and> s' = s
             \<and> (\<exists>attempts.
                   fx = attempts @ (if clipboardWrites e smartText
                                    then [ClipboardWriteText smartText] else [])
                 \<and> set attempts \<subseteq> {NativePaste smartText, Pbcopy smartText, Keystroke}))
          \<and> (res = Inl err \<longrightarrow> pathsFail)"
proof -
  define smartText where "smartText = addSimpleSmartSpacing s (nowSpacing e) t"
  obtain r1 fx1 where n: "tryNativePaste e smartText = (r1, fx1)"
    by (cases "tryNativePaste e smartText")
  obtain r2 fx2 where a: "tryAppleScriptPaste e smartText = (r2, fx2)"
    by (cases "tryAppleScriptPaste e smartText")
  have nb: "trim t \<noteq> []"
    using assms by (rule trim_nonblank)
  show ?thesis
    using nb tryNativePaste_effects [OF n] tryAppleScriptPaste_effects [OF a]
    unfolding Let_def smartText_def [symmetric]
    by (auto simp: pasteFast_def pasteFailed_def scheduleClipboardWrite_def n a
                   smartText_def [symmetric] Let_def
             split: sum.splits if_splits)
qed

text \<open>
  Both paths fail: the native module is missing and \<open>pbcopy\<close> does not close, so the
  copy timer rejects. And the native module is there but no text field has the focus.
\<close>
theorem pasteFast_failure_backup_rethrow_witness:
  "\<not> list_all isWhiteSpace ''There''
   \<and> fst (tryNativePaste
        \<lparr>typingMonitor = RequireFails, pbcopy = (\<lambda>t. Hangs), osascript = Hangs,
         clipboardWrites = (\<lambda>t. True), nowSpacing = 1700000005000, nowDone = 1700000005600\<rparr>
        '' there'') = Inr False
   \<and> fst (tryAppleScriptPaste
        \<lparr>typingMonitor = RequireFails, pbcopy = (\<lambda>t. Hangs), osascript = Hangs,
         clipboardWrites = (\<lambda>t. True), nowSpacing = 1700000005000, nowDone = 1700000005600\<rparr>
        '' there'') = Inl ''Copy timeout''
   \<and> pasteFast \<lparr>typingMonitor = RequireFails, pbcopy = (\<lambda>t. Hangs), osascript = Hangs,
              clipboardWrites = (\<lambda>t. True), nowSpacing = 1700000005000, nowDone = 1700000005600\<rparr>
     \<lparr>lastPasteTime = 1700000000000, lastPastedText = ''World''\<rparr> ''There''
   = (Inl ''Copy timeout'', \<lparr>lastPasteTime = 1700000000000, lastPastedText = ''World''\<rparr>,
      [Pbcopy '' there'', ClipboardWriteText '' there''])
   \<and> fst (tryNativePaste
        \<lparr>typingMonitor = FastPasteText (\<lambda>t. Returns False), pbcopy = (\<lambda>t. Closes 20 (Some 0)),
         osascript = Closes 60 (Some 0),
         clipboardWrites = (\<lambda>t. True), nowSpacing = 1700000005000, nowDone = 1700000005600\<rparr>
        '' there'') = Inl ''NO_TEXT_INPUT''
   \<and> pasteFast \<lparr>typingMonitor = FastPasteText (\<lambda>t. Returns False), pbcopy = (\<lambda>t. Closes 20 (Some 0)),
              osascript = Closes 60 (Some 0),
              clipboardWrites = (\<lambda>t. True), nowSpacing = 1700000005000, nowDone = 1700000005600\<rparr>
     \<lparr>lastPasteTime = 1700000000000, lastPastedText = ''World''\<rparr> ''There''
   = (Inl ''NO_TEXT_INPUT'', \<lparr>lastPasteTime = 1700000000000, lastPastedText = ''World''\<rparr>,
      [NativePaste '' there'', ClipboardWriteText '' there''])"
  using pasteFast_failure_backup_rethrow
     [of "''There''"
         "\<lparr>lastPasteTime = 1700000000000, lastPastedText = ''World''\<rparr>"
         "\<lparr>typingMonitor = RequireFails, pbcopy = (\<lambda>t. Hangs), osascript = Hangs,
              clipboardWrites = (\<lambda>t. True), nowSpacing = 1700000005000, nowDone = 1700000005600\<rparr>"
         "''Copy timeout''"]
        pasteFast_failure_backup_rethrow
     [of "''There''"
         "\<lparr>lastPasteTime = 1700000000000, lastPastedText = ''World''\<rparr>"
         "\<lparr>typingMonitor = FastPasteText (\<lambda>t. Returns False), pbcopy = (\<lambda>t. Closes 20 (Some 0)),
              osascript = Closes 60 (Some 0),
              clipboardWrites = (\<lambda>t. True), nowSpacing = 1700000005000, nowDone = 1700000005600\<rparr>"
         "''NO_TEXT_INPUT''"]
  by (simp add: paste_eval)

text \<open>
  Claim C10. For a text that is empty or made of whitespace only, \<open>pasteFast\<close> returns
  without an error, does nothing to the world (no paste, no clipboard write, nothing
  scheduled) and leaves the session as it was.
\<close>
theorem pasteFast_blank_is_noop:
  "list_all isWhiteSpace t \<Longrightarrow> pasteFast e s t = (Inr (), s, [])"
  by (simp add: pasteFast_def trim_blank)

theorem pasteFast_blank_is_noop_witness:
  "list_all isWhiteSpace [CHR '' '', CHR 0x09, CHR 0x0A] \<and>
   pasteFast \<lparr>typingMonitor = FastPasteText (\<lambda>t. Returns True), pbcopy = (\<lambda>t. Closes 20 (Some 0)), osascript = Closes 60 (Some 0),
              clipboardWrites = (\<lambda>t. True), nowSpacing = 1700000005000, nowDone = 1700000005001\<rparr>
     \<lparr>lastPasteTime = 1700000000000, lastPastedText = ''World''\<rparr> [CHR '' '', CHR 0x09, CHR 0x0A]
   = (Inr (), \<lparr>lastPasteTime = 1700000000000, lastPastedText = ''World''\<rparr>, [])"
  using pasteFast_blank_is_noop [of "[CHR '' '', CHR 0x09, CHR 0x0A]"
     "\<lparr>typingMonitor = FastPasteText (\<lambda>t. Returns True), pbcopy = (\<lambda>t. Closes 20 (Some 0)), osascript = Closes 60 (Some 0),
              clipboardWrites = (\<lambda>t. True), nowSpacing = 1700000005000, nowDone = 1700000005001\<rparr>"
     "\<lparr>lastPasteTime = 1700000000000, lastPastedText = ''World''\<rparr>"]
  by (simp add: isWhiteSpace_def)

section \<open>Freeing a handle: results\<close>

lemma free_model_loaded:
  "handleAt n a = Some h \<Longrightarrow> ctx h = Some c \<Longrightarrow> \<not> freed h \<Longrightarrow>
     free_model n [External a] =
       (Inr (), n\<lparr>handles := (handles n)[a := Some (h\<lparr>ctx := None, freed := True\<rparr>)],
                  calls := calls n @ [WhisperFree c]\<rparr>)"
  by (simp add: free_model_def unwrap_handle_def)

lemma free_model_freed:
  "handleAt n a = Some h \<Longrightarrow> freed h \<or> ctx h = None \<Longrightarrow> free_model n [External a] = (Inr (), n)"
  by (auto simp: free_model_def unwrap_handle_def split: option.splits)

lemma handleAt_update:
  "handleAt n a = Some h \<Longrightarrow> handleAt (n\<lparr>handles := (handles n)[a := x], calls := cs\<rparr>) a = x"
  by (auto simp: handleAt_def split: if_splits)

text \<open>
  Claim C4. \<open>free\<close> on a handle that is already freed returns without an error and
  changes nothing. On a loaded handle, two calls of \<open>free\<close> in a row both return
  without an error, the second changes nothing, and the engine is asked to release the
  context exactly once. The same holds for the method \<open>free\<close> of the wrapper class,
  which forgets its handle at the first call. When the freed handle is collected later,
  its destructor does not release the context again.
\<close>
theorem free_twice_releases_once:
  assumes "handleAt n a = Some h"
  shows "(freed h \<or> ctx h = None \<longrightarrow> free_model n [External a] = (Inr (), n))
       \<and> (\<not> freed h \<and> ctx h = Some c \<longrightarrow>
            (let (r1, n1) = free_model n [External a];
                 (r2, n2) = free_model n1 [External a]
             in r1 = Inr () \<and> r2 = Inr () \<and> n2 = n1
              \<and> calls n2 = calls n @ [WhisperFree c]
              \<and> \<not> isLoaded (handleAt n2 a)
              \<and> calls (finalize n2 a) = calls n2)
          \<and> (let (r1, w1, n1) = WhisperCpp_free (\<lparr>handle = Some (External a), modelPath = p\<rparr>, n);
                  (r2, w2, n2) = WhisperCpp_free (w1, n1)
              in r1 = Inr () \<and> r2 = Inr () \<and> handle w1 = None \<and> w2 = w1 \<and> n2 = n1
               \<and> calls n2 = calls n @ [WhisperFree c]))"
proof (intro conjI impI)
  assume "freed h \<or> ctx h = None"
  then show "free_model n [External a] = (Inr (), n)"
    using assms by (rule free_model_freed [rotated])
next
  assume l: "\<not> freed h \<and> ctx h = Some c"
  define n1 where "n1 = n\<lparr>handles := (handles n)[a := Some (h\<lparr>ctx := None, freed := True\<rparr>)],
                  calls := calls n @ [WhisperFree c]\<rparr>"
  have f1: "free_model n [External a] = (Inr (), n1)"
    using assms l by (simp add: free_model_loaded n1_def)
  have h1: "handleAt n1 a = Some (h\<lparr>ctx := None, freed := True\<rparr>)"
    unfolding n1_def using assms by (rule handleAt_update)
  then have f2: "free_model n1 [External a] = (Inr (), n1)"
    by (rule free_model_freed) simp
  have c1: "calls n1 = calls n @ [WhisperFree c]"
    by (simp add: n1_def)
  have lh: "\<not> isLoaded (handleAt n1 a)"
    by (simp add: h1 isLoaded_def)
  have fin: "calls (finalize n1 a) = calls n1"
    by (simp add: h1 finalize_def)
  show "let (r1, n1) = free_model n [External a];
            (r2, n2) = free_model n1 [External a]
        in r1 = Inr () \<and> r2 = Inr () \<and> n2 = n1
         \<and> calls n2 = calls n @ [WhisperFree c]
         \<and> \<not> isLoaded (handleAt n2 a)
         \<and> calls (finalize n2 a) = calls n2"
    by (simp add: f1 f2 c1 lh fin)
  show "let (r1, w1, n1) = WhisperCpp_free (\<lparr>handle = Some (External a), modelPath = p\<rparr>, n);
            (r2, w2, n2) = WhisperCpp_free (w1, n1)
        in r1 = Inr () \<and> r2 = Inr () \<and> handle w1 = None \<and> w2 = w1 \<and> n2 = n1
         \<and> calls n2 = calls n @ [WhisperFree c]"
    by (simp add: WhisperCpp_free_def f1 c1)
qed

text \<open>A model is loaded into the empty addon and freed twice.\<close>
theorem free_twice_releases_once_witness:
  "let n = snd (init_model (\<lambda>p. True) emptyNative ''ggml-tiny.en.bin'');
       (r1, n1) = free_model n [External 0];
       (r2, n2) = free_model n1 [External 0]
   in handleAt n 0 = Some \<lparr>ctx = Some 0, freed = False, model_path = ''ggml-tiny.en.bin''\<rparr>
    \<and> r1 = Inr () \<and> r2 = Inr () \<and> n2 = n1 \<and> calls n2 = [WhisperInit 0, WhisperFree 0]"
  using free_twice_releases_once
     [of "snd (init_model (\<lambda>p. True) emptyNative ''ggml-tiny.en.bin'')" 0
         "\<lparr>ctx = Some 0, freed = False, model_path = ''ggml-tiny.en.bin''\<rparr>" 0
         "''ggml-tiny.en.bin''"]
  by (auto simp: init_model_def emptyNative_def handleAt_def Let_def split: prod.splits)

section \<open>The resident model: results\<close>

lemma resident_append: "resident live (xs @ ys) = resident (resident live xs) ys"
  by (induction live xs rule: resident.induct) simp_all

lemma single_resident_start: "single_resident live cs \<Longrightarrow> length live \<le> 1"
  by (cases "(live, cs)" rule: single_resident.cases) simp_all

lemma single_resident_append:
  "single_resident live (xs @ ys) =
     (single_resident live xs \<and> single_resident (resident live xs) ys)"
  by (induction live xs rule: single_resident.induct) (auto dest: single_resident_start)

text \<open>Freeing a loaded handle takes one from the number of loaded handles.\<close>
lemma filter_update_unload:
  "a < length xs \<Longrightarrow> P (xs ! a) \<Longrightarrow> \<not> P y \<Longrightarrow>
     Suc (length (filter P (xs[a := y]))) = length (filter P xs)"
proof (induction xs arbitrary: a)
  case Nil
  then show ?case by simp
next
  case (Cons x xs)
  then show ?case by (cases a) auto
qed

lemma free_loaded_state:
  assumes "loadedHandle n (External a) = Some c"
  shows "calls (snd (free_model n [External a])) = calls n @ [WhisperFree c]"
    and "Suc (loadedCount (snd (free_model n [External a]))) = loadedCount n"
    and "length (handles (snd (free_model n [External a]))) = length (handles n)"
proof -
  from assms obtain h where h: "handleAt n a = Some h" "ctx h = Some c" "\<not> freed h"
    by (auto simp: loadedHandle_def split: option.splits if_splits)
  note f = free_model_loaded [OF h]
  from h(1) have a: "a < length (handles n)" "handles n ! a = Some h"
    by (auto simp: handleAt_def split: if_splits)
  show "calls (snd (free_model n [External a])) = calls n @ [WhisperFree c]"
    by (simp add: f)
  show "length (handles (snd (free_model n [External a]))) = length (handles n)"
    by (simp add: f)
  have "Suc (length (filter isLoaded ((handles n)[a := Some (h\<lparr>ctx := None, freed := True\<rparr>)])))
          = length (filter isLoaded (handles n))"
    using a h by (intro filter_update_unload) (simp_all add: isLoaded_def)
  then show "Suc (loadedCount (snd (free_model n [External a]))) = loadedCount n"
    by (simp add: f loadedCount_def)
qed

lemma consistent_freePrevious:
  assumes "consistent m"
  shows "consistent (freePrevious m)"
    and "whisperHandle (freePrevious m) = None"
    and "whisperAddon (freePrevious m) = whisperAddon m"
    and "length (handles (addon (freePrevious m))) = length (handles (addon m))"
    and "calls (addon (freePrevious m)) =
           calls (addon m) @ map WhisperFree (resident [] (calls (addon m)))"
proof -
  show "whisperHandle (freePrevious m) = None"
    by (simp add: freePrevious_def split: option.splits)
  show "whisperAddon (freePrevious m) = whisperAddon m"
    by (simp add: freePrevious_def split: option.splits)
  have "consistent (freePrevious m)
      \<and> length (handles (addon (freePrevious m))) = length (handles (addon m))
      \<and> calls (addon (freePrevious m)) =
           calls (addon m) @ map WhisperFree (resident [] (calls (addon m)))"
  proof (cases "whisperHandle m")
    case None
    with assms show ?thesis
      by (simp add: freePrevious_def consistent_def)
  next
    case (Some v)
    with assms obtain a c where v: "v = External a"
      and l: "loadedHandle (addon m) (External a) = Some c"
      and r: "resident [] (calls (addon m)) = [c]"
      and k: "loadedCount (addon m) = 1"
      and s: "single_resident [] (calls (addon m))"
      by (cases v) (auto simp: consistent_def loadedHandle_def split: option.splits)
    note f = free_loaded_state [OF l]
    have fp: "freePrevious m = m\<lparr>whisperHandle := None, loadedModelId := None,
                  addon := snd (free_model (addon m) [External a])\<rparr>"
      by (simp add: freePrevious_def Some v)
    have "consistent (freePrevious m)"
      using f(1) f(2) r k s
      by (simp add: fp consistent_def single_resident_append resident_append)
    moreover have "length (handles (addon (freePrevious m))) = length (handles (addon m))"
      by (simp add: fp f(3))
    moreover have "calls (addon (freePrevious m)) =
           calls (addon m) @ map WhisperFree (resident [] (calls (addon m)))"
      by (simp add: fp f(1) r)
    ultimately show ?thesis by simp
  qed
  then show "consistent (freePrevious m)"
   and "length (handles (addon (freePrevious m))) = length (handles (addon m))"
   and "calls (addon (freePrevious m)) =
           calls (addon m) @ map WhisperFree (resident [] (calls (addon m)))"
    by simp_all
qed

lemma consistent_freeModel: "consistent m \<Longrightarrow> consistent (freeModel m)"
proof -
  assume c: "consistent m"
  have "freeModel m = freePrevious m"
    using c by (auto simp: freeModel_def freePrevious_def consistent_def split: option.splits)
  then show ?thesis
    using consistent_freePrevious(1) [OF c] by simp
qed

lemma init_model_cases:
  "init_model loads n p = (r, n') \<Longrightarrow>
     (\<not> loads p \<and> (\<exists>err. r = Inl err) \<and> n' = n)
   \<or> (loads p \<and> r = Inr (External (length (handles n)))
        \<and> calls n' = calls n @ [WhisperInit (length (handles n))]
        \<and> loadedCount n' = Suc (loadedCount n)
        \<and> loadedHandle n' (External (length (handles n))) = Some (length (handles n)))"
  by (auto simp: init_model_def Let_def loadedHandle_def handleAt_def loadedCount_def isLoaded_def
           split: if_splits)

lemma consistent_autoPreload: "consistent m \<Longrightarrow> consistent (autoPreload e m modelId)"
proof -
  assume c: "consistent m"
  obtain r n' where i: "init_model (engineLoads e) (addon m) (getModelPath e modelId) = (r, n')"
    by (cases "init_model (engineLoads e) (addon m) (getModelPath e modelId)")
  show ?thesis
    using c init_model_cases [OF i]
    by (auto simp: autoPreload_def i consistent_def single_resident_append resident_append)
qed

lemma preloadModel_loads:
  assumes c: "consistent m" and a: "whisperAddon m" and d: "isModelDownloaded e modelId"
      and l: "\<not> (whisperHandle m \<noteq> None \<and> loadedModelId m = Some modelId)"
  shows "consistent (snd (preloadModel e m modelId))"
    and "calls (addon (snd (preloadModel e m modelId))) =
           calls (addon m) @ map WhisperFree (resident [] (calls (addon m)))
             @ (if engineLoads e (getModelPath e modelId)
                then [WhisperInit (length (handles (addon m)))] else [])"
proof -
  let ?m1 = "freePrevious m"
  note f = consistent_freePrevious [OF c]
  obtain r n' where i: "init_model (engineLoads e) (addon ?m1) (getModelPath e modelId) = (r, n')"
    by (cases "init_model (engineLoads e) (addon ?m1) (getModelPath e modelId)")
  have p: "preloadModel e m modelId =
     (case r of Inl err \<Rightarrow> (False, ?m1\<lparr>whisperHandle := None, loadedModelId := None, addon := n'\<rparr>)
      | Inr h \<Rightarrow> (True, ?m1\<lparr>whisperHandle := Some h, loadedModelId := Some modelId,
                       currentModelId := Some modelId, addon := n'\<rparr>))"
    using a d l by (auto simp: preloadModel_def i Let_def)
  show "consistent (snd (preloadModel e m modelId))"
    using init_model_cases [OF i] f(1) f(2) f(3) a
    by (auto simp: p consistent_def single_resident_append resident_append)
  show "calls (addon (snd (preloadModel e m modelId))) =
           calls (addon m) @ map WhisperFree (resident [] (calls (addon m)))
             @ (if engineLoads e (getModelPath e modelId)
                then [WhisperInit (length (handles (addon m)))] else [])"
    using init_model_cases [OF i] f(4) f(5)
    by (auto simp: p)
qed

lemma consistent_preloadModel: "consistent m \<Longrightarrow> consistent (snd (preloadModel e m modelId))"
proof -
  assume c: "consistent m"
  show ?thesis
  proof (cases "whisperAddon m \<and> isModelDownloaded e modelId
                 \<and> \<not> (whisperHandle m \<noteq> None \<and> loadedModelId m = Some modelId)")
    case True
    then show ?thesis using preloadModel_loads(1) [OF c] by blast
  next
    case False
    then have "snd (preloadModel e m modelId) = m"
      by (auto simp: preloadModel_def)
    then show ?thesis using c by simp
  qed
qed

lemma consistent_start: "consistent (startModule available)"
  by (simp add: consistent_def startModule_def emptyNative_def loadedCount_def)

lemma consistent_run: "consistent m \<Longrightarrow> consistent (run e m ops)"
  unfolding run_def
proof (induction ops arbitrary: m)
  case Nil
  then show ?case by simp
next
  case (Cons op ops)
  have "consistent (perform e m op)"
    using Cons.prems
    by (cases op)
       (simp_all add: consistent_preloadModel consistent_freeModel consistent_autoPreload
                      loadModel_def)
  then show ?case
    using Cons.IH by simp
qed

lemma consistent_loadedCount: "consistent m \<Longrightarrow> loadedCount (addon m) \<le> 1"
  by (auto simp: consistent_def split: option.splits)

text \<open>
  Claim C5. Take any state the module reaches from its start by preloading, loading,
  freeing and auto-preloading, and preload a model in it. Before and after, at most one
  handle is loaded, and at no point of the whole history does the engine hold more than
  one context. When the state holds a handle of another model and the preload goes on to
  load (the addon is there and the model file exists), the engine calls it makes are the
  release of the one resident context, and then, where the engine accepts the file, the
  load of the new one, in this order.
\<close>
theorem single_resident_model:
  "let m = run e (startModule available) ops;
       m' = snd (preloadModel e m modelId)
   in loadedCount (addon m) \<le> 1 \<and> loadedCount (addon m') \<le> 1
    \<and> single_resident [] (calls (addon m'))
    \<and> length (resident [] (calls (addon m'))) \<le> 1
    \<and> (whisperAddon m \<and> isModelDownloaded e modelId
        \<and> whisperHandle m \<noteq> None \<and> loadedModelId m \<noteq> Some modelId \<longrightarrow>
          (\<exists>c. resident [] (calls (addon m)) = [c]
             \<and> calls (addon m') =
                 calls (addon m) @ WhisperFree c #
                   (if engineLoads e (getModelPath e modelId)
                    then [WhisperInit (length (handles (addon m)))] else [])))"
proof -
  define m where "m = run e (startModule available) ops"
  have c: "consistent m"
    unfolding m_def by (rule consistent_run [OF consistent_start])
  have c': "consistent (snd (preloadModel e m modelId))"
    by (rule consistent_preloadModel [OF c])
  then have s: "single_resident [] (calls (addon (snd (preloadModel e m modelId))))"
    by (simp add: consistent_def)
  then have r: "length (resident [] (calls (addon (snd (preloadModel e m modelId))))) \<le> 1"
    using single_resident_append [of "[]" "calls (addon (snd (preloadModel e m modelId)))" "[]"]
    by simp
  have o: "\<exists>c. resident [] (calls (addon m)) = [c]
             \<and> calls (addon (snd (preloadModel e m modelId))) =
                 calls (addon m) @ WhisperFree c #
                   (if engineLoads e (getModelPath e modelId)
                    then [WhisperInit (length (handles (addon m)))] else [])"
    if h: "whisperAddon m" "isModelDownloaded e modelId" "whisperHandle m \<noteq> None"
          "loadedModelId m \<noteq> Some modelId"
  proof -
    from c h(3) obtain k where k: "resident [] (calls (addon m)) = [k]"
      by (auto simp: consistent_def split: option.splits)
    show ?thesis
      using preloadModel_loads(2) [OF c h(1) h(2)] h(4) k by simp
  qed
  show ?thesis
    unfolding Let_def m_def [symmetric]
    using s r o consistent_loadedCount [OF c] consistent_loadedCount [OF c'] by blast
qed

lemmas local_eval = run_def startModule_def emptyNative_def preloadModel_def freePrevious_def
  isModelDownloaded_def getModelPath_def init_model_def free_model_def unwrap_handle_def
  handleAt_def loadedCount_def isLoaded_def Let_def

text \<open>With tiny.en resident, base.en is preloaded: free, then init.\<close>
theorem single_resident_model_witness:
  "let e = \<lparr>modelsDir = ''models'', fileExists = (\<lambda>p. True), engineLoads = (\<lambda>p. True)\<rparr>;
       m = run e (startModule True) [Preload ''tiny.en''];
       m' = snd (preloadModel e m ''base.en'')
   in whisperAddon m \<and> isModelDownloaded e ''base.en''
    \<and> whisperHandle m = Some (External 0) \<and> loadedModelId m = Some ''tiny.en''
    \<and> calls (addon m) = [WhisperInit 0]
    \<and> calls (addon m') = [WhisperInit 0, WhisperFree 0, WhisperInit 1]
    \<and> whisperHandle m' = Some (External 1) \<and> loadedModelId m' = Some ''base.en''
    \<and> loadedCount (addon m') = 1
    \<and> single_resident [] (calls (addon m'))"
  using single_resident_model
    [of "\<lparr>modelsDir = ''models'', fileExists = (\<lambda>p. True), engineLoads = (\<lambda>p. True)\<rparr>"
        True "[Preload ''tiny.en'']" "''base.en''"]
  by (simp add: local_eval)

section \<open>Minimum duration: results\<close>

lemma word_cat_zero: "word_cat (0 :: byte) (0 :: byte) = (0 :: 16 word)"
  by (simp add: word_cat_eq)

lemma samples_append_even:
  "even (length xs) \<Longrightarrow> samples (xs @ ys) = samples xs @ samples ys"
  by (induction xs rule: samples.induct) simp_all

lemma samples_zeros: "samples (replicate (2 * k) 0) = replicate k 0"
  by (induction k) (simp_all add: word_cat_zero)

lemma minBytes_value: "minBytes = 35200"
  by (simp add: minBytes_def minSamples_def minDurationMs_def sampleRate_def bytesPerSample_def)

lemma processedBuffer_short:
  "length b < minBytes \<Longrightarrow> processedBuffer b = b @ replicate (minBytes - length b) 0"
  by (simp add: processedBuffer_def buffer_copy_def buffer_alloc_def)

text \<open>
  Claim C3. A buffer of \<open>n\<close> bytes lasts \<open>n * 1000 / (16000 * 2)\<close> ms at 16 kHz, mono,
  16 bit. A buffer that lasts less than 1100 ms (fewer than 35200 bytes) becomes a buffer
  of exactly 35200 bytes, 1100 ms: the bytes of the input come first, unchanged, and
  every byte after them is zero; read as samples, an input of whole samples is followed
  by zero samples up to 17600. A buffer of 1100 ms or more is passed on as it is.
\<close>
theorem short_audio_zero_padded:
  "(length b * 1000 < 1100 * (16000 * 2) \<longrightarrow>
      length (processedBuffer b) = 35200
    \<and> length (processedBuffer b) * 1000 = 1100 * (16000 * 2)
    \<and> take (length b) (processedBuffer b) = b
    \<and> drop (length b) (processedBuffer b) = replicate (35200 - length b) 0
    \<and> (even (length b) \<longrightarrow>
         samples (processedBuffer b) = samples b @ replicate (17600 - length b div 2) 0))
   \<and> (\<not> length b * 1000 < 1100 * (16000 * 2) \<longrightarrow> processedBuffer b = b)"
proof (cases "length b < minBytes")
  case False
  then show ?thesis
    by (simp add: minBytes_value processedBuffer_def)
next
  case True
  note pb = processedBuffer_short [OF True]
  have len: "length b < 35200"
    using True by (simp add: minBytes_value)
  have smp: "samples (processedBuffer b) = samples b @ replicate (17600 - length b div 2) 0"
    if ev: "even (length b)"
  proof -
    from ev obtain j where j: "length b = 2 * j" by (auto elim: evenE)
    then have "minBytes - length b = 2 * (17600 - j)"
      by (simp add: minBytes_value)
    then show ?thesis
      using ev j by (simp add: pb samples_append_even samples_zeros)
  qed
  show ?thesis
    using True len smp
    by (simp add: pb minBytes_value)
qed

text \<open>One sample is padded to 17600; a buffer of exactly 1100 ms is kept.\<close>
theorem short_audio_zero_padded_witness:
  "length [0x34, 0x12 :: byte] * 1000 < 1100 * (16000 * 2)
   \<and> length (processedBuffer [0x34, 0x12]) = 35200
   \<and> take (length [0x34, 0x12 :: byte]) (processedBuffer [0x34, 0x12]) = [0x34, 0x12]
   \<and> drop (length [0x34, 0x12 :: byte]) (processedBuffer [0x34, 0x12]) = replicate 35198 0
   \<and> samples (processedBuffer [0x34, 0x12]) = 0x1234 # replicate 17599 0
   \<and> \<not> length (replicate 35200 (1 :: byte)) * 1000 < 1100 * (16000 * 2)
   \<and> processedBuffer (replicate 35200 (1 :: byte)) = replicate 35200 1"
  using short_audio_zero_padded [of "[0x34, 0x12]"] short_audio_zero_padded [of "replicate 35200 1"]
  by (simp add: word_cat_eq)

end
